theory Spec2Isabelle
  imports Main
begin

section \<open>The conversational assistant of \<open>PatientDashboard.tsx\<close>\<close>

text \<open>
  The component keeps five pieces of React state (\<open>userInput\<close>, \<open>chatHistory\<close>,
  \<open>isLoading\<close>, \<open>isListening\<close>, \<open>selectedLanguage\<close>), owns one module-level speech
  recognition object, and defines the handlers \<open>handleToggleListening\<close>, \<open>translateText\<close>
  and \<open>handleAskAI\<close>. The handlers are modelled as functions on a record of that state;
  the browser (user events, the recognition service, \<open>fetch\<close>) is modelled as a stream of
  events fed to a step function. What the component renders from its state is outside
  the model.
\<close>

subsection \<open>Strings\<close>

text \<open>
  A JavaScript string is modelled by its UTF-8 bytes. The operations the handlers use
  (\<open>startsWith('en')\<close>, \<open>split('-')[0]\<close>, concatenation in template literals, and
  \<open>trim()\<close>) are then written on bytes: an ASCII prefix or separator is the same bytes in
  both encodings, and the white space that \<open>trim\<close> removes is listed by its UTF-8
  encodings.
\<close>

definition startsWith :: "string \<Rightarrow> string \<Rightarrow> bool" where
  \<comment> \<open>\<open>s.startsWith(p)\<close>\<close>
  "startsWith s p = (take (length p) s = p)"

definition split_first :: "char \<Rightarrow> string \<Rightarrow> string" where
  \<comment> \<open>\<open>s.split(c)[0]\<close>: the text before the first separator, all of \<open>s\<close> when there is none\<close>
  "split_first c s = takeWhile (\<lambda>x. x \<noteq> c) s"

definition white_space :: "string list" where
  \<comment> \<open>ECMAScript WhiteSpace and LineTerminator code points, in UTF-8:
      U+0009..U+000D, U+0020, U+00A0, U+1680, U+2000..U+200A, U+2028, U+2029, U+202F,
      U+205F, U+3000, U+FEFF\<close>
  "white_space =
     [[CHR 0x09], [CHR 0x0A], [CHR 0x0B], [CHR 0x0C], [CHR 0x0D], [CHR 0x20],
      [CHR 0xC2, CHR 0xA0],
      [CHR 0xE1, CHR 0x9A, CHR 0x80],
      [CHR 0xE2, CHR 0x80, CHR 0x80], [CHR 0xE2, CHR 0x80, CHR 0x81],
      [CHR 0xE2, CHR 0x80, CHR 0x82], [CHR 0xE2, CHR 0x80, CHR 0x83],
      [CHR 0xE2, CHR 0x80, CHR 0x84], [CHR 0xE2, CHR 0x80, CHR 0x85],
      [CHR 0xE2, CHR 0x80, CHR 0x86], [CHR 0xE2, CHR 0x80, CHR 0x87],
      [CHR 0xE2, CHR 0x80, CHR 0x88], [CHR 0xE2, CHR 0x80, CHR 0x89],
      [CHR 0xE2, CHR 0x80, CHR 0x8A],
      [CHR 0xE2, CHR 0x80, CHR 0xA8], [CHR 0xE2, CHR 0x80, CHR 0xA9],
      [CHR 0xE2, CHR 0x80, CHR 0xAF],
      [CHR 0xE2, CHR 0x81, CHR 0x9F],
      [CHR 0xE3, CHR 0x80, CHR 0x80],
      [CHR 0xEF, CHR 0xBB, CHR 0xBF]]"

definition ws_len :: "string list \<Rightarrow> string \<Rightarrow> nat" where
  \<comment> \<open>the number of bytes of the white-space code point that \<open>s\<close> starts with, 0 when it
      starts with none\<close>
  "ws_len ws s = (case List.find (\<lambda>w. w \<noteq> [] \<and> startsWith s w) ws of
                    None \<Rightarrow> 0 | Some w \<Rightarrow> length w)"

lemma ws_len_nonempty: "0 < ws_len ws s \<Longrightarrow> 0 < length s"
  by (auto simp: ws_len_def startsWith_def find_Some_iff split: option.splits)

function strip_leading :: "string list \<Rightarrow> string \<Rightarrow> string" where
  "strip_leading ws s =
     (if ws_len ws s = 0 then s else strip_leading ws (drop (ws_len ws s) s))"
  by pat_completeness auto
termination
proof (relation "measure (\<lambda>(ws, s). length s)")
  fix ws :: "string list" and s :: string
  assume "ws_len ws s \<noteq> 0"
  then have "0 < ws_len ws s" by simp
  with ws_len_nonempty [of ws s] have "length s - ws_len ws s < length s" by arith
  then show "((ws, drop (ws_len ws s) s), (ws, s)) \<in> measure (\<lambda>(ws, s). length s)"
    by simp
qed simp

declare strip_leading.simps [simp del]

definition trimStart :: "string \<Rightarrow> string" where
  "trimStart s = strip_leading white_space s"

definition trimEnd :: "string \<Rightarrow> string" where
  "trimEnd s = rev (strip_leading (map rev white_space) (rev s))"

definition trim :: "string \<Rightarrow> string" where
  \<comment> \<open>\<open>s.trim()\<close>\<close>
  "trim s = trimEnd (trimStart s)"

subsection \<open>Errors\<close>

text \<open>
  A value that a \<open>throw\<close> or a rejected promise carries. \<open>Error m\<close> is the
  \<open>new Error(m)\<close> of \<open>handleAskAI\<close>; \<open>NullDeref\<close> is the TypeError of reading a property
  of \<open>null\<close>; \<open>NotPrimitive\<close> is the TypeError of turning into a string an object that
  has no primitive value; \<open>External r\<close> is a failure raised by the platform (a rejected
  \<open>fetch\<close>, a body that is not JSON, a recognition service that refuses to start).
\<close>

datatype thrown = Error string | NullDeref | NotPrimitive | External string

type_synonym 'a promise = "thrown + 'a"

subsection \<open>Values of the parsed response\<close>

text \<open>
  \<open>response.json()\<close> resolves to a value of type \<open>any\<close>, and the reply that
  \<open>handleAskAI\<close> stores is whatever sits at \<open>candidates[0].content.parts[0].text\<close>, so the
  model keeps JavaScript values. A number is kept as the string that \<open>String(n)\<close> gives
  for it (which determines the number); an object is kept as the list of its own
  properties, in enumeration order.
\<close>

datatype jsval =
    JUndefined
  | JNull
  | JBool bool
  | JNum string
  | JStr string
  | JArr "jsval list"
  | JObj "(string \<times> jsval) list"

fun nullish :: "jsval \<Rightarrow> bool" where
  "nullish JUndefined = True"
| "nullish JNull = True"
| "nullish _ = False"

fun truthy :: "jsval \<Rightarrow> bool" where
  \<comment> \<open>what \<open>v || d\<close> tests: \<open>undefined\<close>, \<open>null\<close>, \<open>false\<close>, \<open>0\<close>, \<open>NaN\<close> and \<open>""\<close> are falsy\<close>
  "truthy JUndefined = False"
| "truthy JNull = False"
| "truthy (JBool b) = b"
| "truthy (JNum n) = (n \<noteq> ''0'' \<and> n \<noteq> ''NaN'')"
| "truthy (JStr s) = (s \<noteq> [])"
| "truthy (JArr _) = True"
| "truthy (JObj _) = True"

fun join :: "string \<Rightarrow> string list \<Rightarrow> string" where
  "join sep [] = []"
| "join sep [x] = x"
| "join sep (x # y # ys) = x @ sep @ join sep (y # ys)"

fun collect :: "'a promise list \<Rightarrow> 'a list promise" where
  \<comment> \<open>the values of a list of computations done in order, or the first failure\<close>
  "collect [] = Inr []"
| "collect (p # ps) =
     (case p of
        Inl e \<Rightarrow> Inl e
      | Inr x \<Rightarrow> (case collect ps of Inl e \<Rightarrow> Inl e | Inr xs \<Rightarrow> Inr (x # xs)))"

fun toStr :: "jsval \<Rightarrow> string promise" where
  \<comment> \<open>the string a template literal \<open>`${v}`\<close> inserts for \<open>v\<close>, or the TypeError it throws.
      An array is the join of its elements (\<open>null\<close> as the empty string). An object is
      converted by its \<open>toString\<close>: the inherited one gives \<open>[object Object]\<close>; an own
      property of that name, which in a parsed value is never a function, hides it, and
      then neither it nor \<open>valueOf\<close> yields a primitive, so the conversion throws\<close>
  "toStr JUndefined = Inr ''undefined''"
| "toStr JNull = Inr ''null''"
| "toStr (JBool b) = Inr (if b then ''true'' else ''false'')"
| "toStr (JNum n) = Inr n"
| "toStr (JStr s) = Inr s"
| "toStr (JArr xs) =
     (case collect (map (\<lambda>x. if nullish x then Inr [] else toStr x) xs) of
        Inl e \<Rightarrow> Inl e
      | Inr ss \<Rightarrow> Inr (join '','' ss))"
| "toStr (JObj kvs) =
     (if ''toString'' \<in> set (map fst kvs) then Inl NotPrimitive
      else Inr ''[object Object]'')"

fun get_prop :: "string \<Rightarrow> jsval \<Rightarrow> jsval" where
  \<comment> \<open>\<open>v.key\<close> for a \<open>v\<close> that is neither \<open>null\<close> nor \<open>undefined\<close>, and a key that no
      prototype defines (\<open>candidates\<close>, \<open>content\<close>, \<open>parts\<close>, \<open>text\<close>)\<close>
  "get_prop key (JObj kvs) = (case map_of kvs key of None \<Rightarrow> JUndefined | Some v \<Rightarrow> v)"
| "get_prop key _ = JUndefined"

fun index0 :: "jsval \<Rightarrow> jsval" where
  \<comment> \<open>\<open>v[0]\<close> for a \<open>v\<close> that is neither \<open>null\<close> nor \<open>undefined\<close>. On a non-empty string it
      is a one-unit string; the model keeps its first byte, and the code only ever reads
      a property of it next, which is \<open>undefined\<close> for every string\<close>
  "index0 (JArr []) = JUndefined"
| "index0 (JArr (x # _)) = x"
| "index0 (JStr []) = JUndefined"
| "index0 (JStr (c # _)) = JStr [c]"
| "index0 (JObj kvs) = (case map_of kvs ''0'' of None \<Rightarrow> JUndefined | Some v \<Rightarrow> v)"
| "index0 _ = JUndefined"

definition opt_prop :: "string \<Rightarrow> jsval \<Rightarrow> jsval" where
  \<comment> \<open>\<open>v?.key\<close>\<close>
  "opt_prop key v = (if nullish v then JUndefined else get_prop key v)"

definition opt_index0 :: "jsval \<Rightarrow> jsval" where
  \<comment> \<open>\<open>v?.[0]\<close>\<close>
  "opt_index0 v = (if nullish v then JUndefined else index0 v)"

definition text_path :: "jsval \<Rightarrow> jsval" where
  \<comment> \<open>\<open>result.candidates?.[0]?.content?.parts?.[0]?.text\<close>, for a \<open>result\<close> that is
      neither \<open>null\<close> nor \<open>undefined\<close>\<close>
  "text_path result =
     opt_prop ''text'' (opt_index0 (opt_prop ''parts'' (opt_prop ''content''
       (opt_index0 (get_prop ''candidates'' result)))))"

definition reply_text :: "jsval \<Rightarrow> jsval promise" where
  \<comment> \<open>the first read, \<open>result.candidates\<close>, is not optional: it throws on \<open>null\<close>\<close>
  "reply_text result = (if nullish result then Inl NullDeref else Inr (text_path result))"

definition placeholder :: string where
  "placeholder = ''Sorry, I couldn't process that.''"

definition apology :: string where
  "apology = ''I'm having trouble connecting right now. Please try again.''"

subsection \<open>The simulated translation\<close>

text \<open>
  \<open>translateText\<close> is declared on strings, and \<open>handleAskAI\<close> also passes it the reply
  found in the response, of type \<open>any\<close>; so the model takes any value. Its first
  statement logs the text in a template literal, which converts it to a string and
  throws where that is impossible; the function is \<open>async\<close>, so the throw is a rejected
  promise. Arguments in the source's order: \<open>text\<close>, \<open>targetLang\<close>, \<open>sourceLang\<close>.
\<close>

definition translateText :: "jsval \<Rightarrow> string \<Rightarrow> string \<Rightarrow> jsval promise" where
  "translateText text targetLang sourceLang =
     (case toStr text of
        Inl e \<Rightarrow> Inl e
      | Inr t \<Rightarrow>
          if startsWith targetLang ''en'' then Inr text
          else Inr (JStr (''['' @ split_first (CHR ''-'') targetLang @ ''] '' @ t)))"

subsection \<open>State\<close>

datatype Role = User | Model

record ChatMessage =
  role :: Role
  "text" :: jsval

text \<open>
  The module-level recognition object: the language it is set to, whether a capture is
  running, and the \<open>selectedLanguage\<close> that the installed \<open>onresult\<close>, \<open>onerror\<close> and
  \<open>onend\<close> handlers closed over (\<open>None\<close> before the first successful start).
  \<open>Stopping\<close> is a capture after \<open>stop()\<close>: the Web Speech API lets it still return a
  result for the audio already received. \<open>Delivered\<close> is a capture whose single result
  or error event has fired and whose \<open>end\<close> event is still to come.
\<close>

datatype capture = Inactive | Capturing | Stopping | Delivered

record Recognizer =
  lang :: string
  capture :: capture
  handlers :: "string option"

text \<open>
  A call of \<open>handleAskAI\<close> suspended at an \<open>await\<close>: the \<open>updatedHistory\<close> and
  \<open>selectedLanguage\<close> its closure holds, and the promise it waits for.
\<close>

datatype stage = AwaitFetch | AwaitErrorData string | AwaitResult

record Exchange =
  updatedHistory :: "ChatMessage list"
  language :: string
  stage :: stage

text \<open>What the handlers do to the world outside the component state, in order.\<close>

datatype effect =
    Alert string
  | ConsoleError string thrown
  | ConsoleErrorCode string string
  | TranslateCall jsval string string
  | FetchCall jsval
  | RecognitionStart string
  | RecognitionStop
  | UnhandledRejection thrown

record World =
  userInput :: string
  chatHistory :: "ChatMessage list"
  isLoading :: bool
  isListening :: bool
  selectedLanguage :: string
  recognition :: "Recognizer option"
  pending :: "Exchange list"
  effects :: "effect list"

definition init :: "bool \<Rightarrow> World" where
  \<comment> \<open>the state at mount; the argument says whether the browser has speech recognition\<close>
  "init supported =
     \<lparr>userInput = [], chatHistory = [], isLoading = False, isListening = False,
      selectedLanguage = ''en-US'',
      recognition = (if supported
                     then Some \<lparr>lang = [], capture = Inactive, handlers = None\<rparr>
                     else None),
      pending = [], effects = []\<rparr>"

definition emit :: "effect \<Rightarrow> World \<Rightarrow> World" where
  "emit e s = s\<lparr>effects := effects s @ [e]\<rparr>"

subsection \<open>Voice input\<close>

definition language_notice :: "string \<Rightarrow> string" where
  "language_notice l =
     ''Sorry, your browser does not support the selected language ('' @ l
     @ ''). Please try English or check if the language pack is installed on your system.''"

fun stop :: "capture \<Rightarrow> capture" where
  \<comment> \<open>\<open>recognition.stop()\<close>: a running capture stops listening and may still return a
      result; otherwise nothing happens\<close>
  "stop Capturing = Stopping"
| "stop c = c"

definition start :: "capture \<Rightarrow> thrown option \<Rightarrow> thrown option" where
  \<comment> \<open>\<open>recognition.start()\<close>: what it throws, if anything. A recognition that is already
      started throws; otherwise the platform decides (second argument)\<close>
  "start c platform =
     (if c \<noteq> Inactive then Some (External ''InvalidStateError'') else platform)"

definition handleToggleListening :: "thrown option \<Rightarrow> World \<Rightarrow> World" where
  "handleToggleListening platform s =
     (case recognition s of
        None \<Rightarrow> emit (Alert ''Sorry, your browser doesn't support voice recognition.'') s
      | Some r \<Rightarrow>
          if isListening s then
            (emit RecognitionStop s)
              \<lparr>isListening := False, recognition := Some (r\<lparr>capture := stop (capture r)\<rparr>)\<rparr>
          else
            (case start (capture r) platform of
               Some e \<Rightarrow>
                 (emit (Alert (language_notice (selectedLanguage s)))
                    (emit (ConsoleError ''Speech recognition start error:'' e) s))
                   \<lparr>isListening := False,
                    recognition := Some (r\<lparr>lang := selectedLanguage s\<rparr>)\<rparr>
             | None \<Rightarrow>
                 (emit (RecognitionStart (selectedLanguage s)) s)
                   \<lparr>isListening := True,
                    recognition := Some (r\<lparr>lang := selectedLanguage s, capture := Capturing,
                                            handlers := Some (selectedLanguage s)\<rparr>)\<rparr>))"

definition onresult :: "string \<Rightarrow> World \<Rightarrow> World" where
  "onresult transcript s = s\<lparr>userInput := transcript, isListening := False\<rparr>"

definition onerror :: "string \<Rightarrow> string \<Rightarrow> World \<Rightarrow> World" where
  \<comment> \<open>first argument: the \<open>selectedLanguage\<close> the handler closed over\<close>
  "onerror l code s =
     (if code = ''language-not-supported'' then emit (Alert (language_notice l)) s
      else emit (ConsoleErrorCode ''Speech recognition error:'' code) s)
       \<lparr>isListening := False\<rparr>"

definition onend :: "World \<Rightarrow> World" where
  "onend s = s\<lparr>isListening := False\<rparr>"

subsection \<open>The exchange\<close>

text \<open>
  \<open>handleAskAI\<close> up to its first real suspension. The \<open>await\<close> of \<open>translateText\<close> is
  settled by a microtask, before any other event is handled, so the guard, the three
  state updates, the translation and the start of the \<open>fetch\<close> form one step. The
  translation is awaited before the \<open>try\<close> block: were it to reject, the rejection would
  leave \<open>handleAskAI\<close> unhandled, after the state updates (branch \<open>Inl\<close>).

  \<open>FetchCall q\<close> records the request; its URL, headers and system prompt are constants
  of the source, and \<open>q\<close> is the \<open>englishQuery\<close> in its body. \<open>TranslateCall\<close> records a call
  of \<open>translateText\<close> with its arguments, whether it then resolves or rejects.
\<close>

definition send :: "ChatMessage list \<Rightarrow> string \<Rightarrow> jsval \<Rightarrow> World \<Rightarrow> World" where
  "send h l englishQuery s =
     (emit (FetchCall englishQuery) s)
       \<lparr>pending := pending s @ [\<lparr>updatedHistory = h, language = l, stage = AwaitFetch\<rparr>]\<rparr>"

definition handleAskAI :: "World \<Rightarrow> World" where
  "handleAskAI s =
     (if trim (userInput s) = [] \<or> isLoading s then s
      else
        let userMessage = \<lparr>role = User, text = JStr (userInput s)\<rparr>;
            updatedHistory = chatHistory s @ [userMessage];
            s1 = s\<lparr>isLoading := True, chatHistory := updatedHistory, userInput := []\<rparr>
        in if startsWith (selectedLanguage s) ''en''
           then send updatedHistory (selectedLanguage s) (JStr (userInput s)) s1
           else
             (case translateText (JStr (userInput s)) ''en-US'' (selectedLanguage s) of
                Inl e \<Rightarrow>
                  emit (UnhandledRejection e)
                    (emit (TranslateCall (JStr (userInput s)) ''en-US'' (selectedLanguage s)) s1)
              | Inr englishQuery \<Rightarrow>
                  send updatedHistory (selectedLanguage s) englishQuery
                    (emit (TranslateCall (JStr (userInput s)) ''en-US'' (selectedLanguage s)) s1)))"

text \<open>
  The end of \<open>handleAskAI\<close>: \<open>setChatHistory([...updatedHistory, m])\<close>, then the \<open>finally\<close>
  block. \<open>i\<close> is the position of the suspended call among the pending ones.
\<close>

definition finish :: "nat \<Rightarrow> Exchange \<Rightarrow> ChatMessage \<Rightarrow> World \<Rightarrow> World" where
  "finish i x m s =
     s\<lparr>chatHistory := updatedHistory x @ [m], isLoading := False,
       pending := take i (pending s) @ drop (Suc i) (pending s)\<rparr>"

definition catch_block :: "nat \<Rightarrow> Exchange \<Rightarrow> thrown \<Rightarrow> World \<Rightarrow> World" where
  "catch_block i x e s =
     finish i x \<lparr>role = Model, text = JStr apology\<rparr>
       (emit (ConsoleError ''Gemini API call failed:'' e) s)"

definition api_error :: "(jsval \<Rightarrow> string) \<Rightarrow> string \<Rightarrow> jsval \<Rightarrow> thrown" where
  \<comment> \<open>the error thrown for a response that is not ok; the first argument is
      \<open>JSON.stringify\<close>\<close>
  "api_error stringify statusText errorData =
     Error (''API error: '' @ statusText @ '' - '' @ stringify errorData)"

definition set_stage :: "nat \<Rightarrow> stage \<Rightarrow> World \<Rightarrow> World" where
  "set_stage i st s = s\<lparr>pending := (pending s)[i := (pending s ! i)\<lparr>stage := st\<rparr>]\<rparr>"

definition on_response :: "nat \<Rightarrow> Exchange \<Rightarrow> (bool \<times> string) promise \<Rightarrow> World \<Rightarrow> World" where
  \<comment> \<open>\<open>await fetch(...)\<close> settles: rejected, or a response with its \<open>ok\<close> and
      \<open>statusText\<close>; either way \<open>response.json()\<close> is awaited next\<close>
  "on_response i x r s =
     (case r of
        Inl e \<Rightarrow> catch_block i x e s
      | Inr (ok, statusText) \<Rightarrow>
          if \<not> ok then set_stage i (AwaitErrorData statusText) s
          else set_stage i AwaitResult s)"

definition on_error_data ::
  "(jsval \<Rightarrow> string) \<Rightarrow> nat \<Rightarrow> Exchange \<Rightarrow> string \<Rightarrow> jsval promise \<Rightarrow> World \<Rightarrow> World" where
  \<comment> \<open>\<open>await response.json()\<close> settles, inside \<open>if (!response.ok)\<close>\<close>
  "on_error_data stringify i x statusText r s =
     (case r of
        Inl e \<Rightarrow> catch_block i x e s
      | Inr errorData \<Rightarrow> catch_block i x (api_error stringify statusText errorData) s)"

definition on_result :: "nat \<Rightarrow> Exchange \<Rightarrow> jsval promise \<Rightarrow> World \<Rightarrow> World" where
  \<comment> \<open>\<open>await response.json()\<close> settles, for an ok response; the rest of the \<open>try\<close> block
      follows, with the second translation awaited inside it\<close>
  "on_result i x r s =
     (case r of
        Inl e \<Rightarrow> catch_block i x e s
      | Inr result \<Rightarrow>
          (case reply_text result of
             Inl e \<Rightarrow> catch_block i x e s
           | Inr t \<Rightarrow>
               let modelResponseInEnglish = (if truthy t then t else JStr placeholder)
               in if startsWith (language x) ''en''
                  then finish i x \<lparr>role = Model, text = modelResponseInEnglish\<rparr> s
                  else
                    let s1 = emit (TranslateCall modelResponseInEnglish (language x) ''en-US'') s
                    in (case translateText modelResponseInEnglish (language x) ''en-US'' of
                          Inl e \<Rightarrow> catch_block i x e s1
                        | Inr translatedResponse \<Rightarrow>
                            finish i x \<lparr>role = Model, text = translatedResponse\<rparr> s1)))"

subsection \<open>Events\<close>

text \<open>
  What can happen to the mounted component: the user types (the input is disabled while
  \<open>isLoading\<close> or \<open>isListening\<close>), picks a language, submits (the button or Enter, both
  call \<open>handleAskAI\<close>), presses the microphone; the recognition service reports a result,
  an error or the end of a capture; a pending \<open>fetch\<close> or \<open>response.json()\<close> settles.
  An event that the platform cannot produce in a state (a result without a capture, a
  settlement that no call waits for) changes nothing.

  Each event is handled as one step. The state updates of a handler are applied
  together when it returns or suspends, and the component renders again before the next
  event is dispatched, so a handler reads the state its predecessors left. A suspended
  call of \<open>handleAskAI\<close> keeps the values it read when it was called.
\<close>

datatype event =
    ChangeInput string
  | SelectLanguage string
  | AskAI
  | ToggleListening "thrown option"
  | RecResult string
  | RecError string
  | RecEnd
  | FetchSettled nat "(bool \<times> string) promise"
  | JsonSettled nat "jsval promise"

definition deliver :: "(string \<Rightarrow> World \<Rightarrow> World) \<Rightarrow> World \<Rightarrow> World" where
  \<comment> \<open>the single result or error event of a capture that is running or stopping\<close>
  "deliver handler s =
     (case recognition s of
        None \<Rightarrow> s
      | Some r \<Rightarrow>
          if capture r = Capturing \<or> capture r = Stopping then
            (case handlers r of None \<Rightarrow> s | Some l \<Rightarrow> handler l s)
              \<lparr>recognition := Some (r\<lparr>capture := Delivered\<rparr>)\<rparr>
          else s)"

definition capture_ended :: "World \<Rightarrow> World" where
  "capture_ended s =
     (case recognition s of
        None \<Rightarrow> s
      | Some r \<Rightarrow>
          if capture r \<noteq> Inactive then
            (case handlers r of None \<Rightarrow> s | Some l \<Rightarrow> onend s)
              \<lparr>recognition := Some (r\<lparr>capture := Inactive\<rparr>)\<rparr>
          else s)"

fun step :: "(jsval \<Rightarrow> string) \<Rightarrow> World \<Rightarrow> event \<Rightarrow> World" where
  "step js s (ChangeInput v) =
     (if isLoading s \<or> isListening s then s else s\<lparr>userInput := v\<rparr>)"
| "step js s (SelectLanguage l) = s\<lparr>selectedLanguage := l\<rparr>"
| "step js s AskAI = handleAskAI s"
| "step js s (ToggleListening platform) = handleToggleListening platform s"
| "step js s (RecResult transcript) = deliver (\<lambda>l. onresult transcript) s"
| "step js s (RecError code) = deliver (\<lambda>l. onerror l code) s"
| "step js s RecEnd = capture_ended s"
| "step js s (FetchSettled i r) =
     (if i < length (pending s) then
        (case stage (pending s ! i) of
           AwaitFetch \<Rightarrow> on_response i (pending s ! i) r s
         | _ \<Rightarrow> s)
      else s)"
| "step js s (JsonSettled i r) =
     (if i < length (pending s) then
        (case stage (pending s ! i) of
           AwaitErrorData statusText \<Rightarrow> on_error_data js i (pending s ! i) statusText r s
         | AwaitResult \<Rightarrow> on_result i (pending s ! i) r s
         | AwaitFetch \<Rightarrow> s)
      else s)"

definition run :: "(jsval \<Rightarrow> string) \<Rightarrow> World \<Rightarrow> event list \<Rightarrow> World" where
  "run js s es = foldl (step js) s es"

section \<open>Runs of the component\<close>

text \<open>
  How the generation call of one exchange ends: \<open>fetch\<close> rejects, or it resolves to a
  response that is not ok, or to one that is ok; in the last two cases
  \<open>response.json()\<close> settles next (with a status text and a parsed body, or rejected).
\<close>

datatype outcome =
    FetchRejected thrown
  | NotOk string "jsval promise"
  | Ok string "jsval promise"

fun quiet :: "event \<Rightarrow> bool" where
  \<comment> \<open>the events that settle no promise\<close>
  "quiet (FetchSettled _ _) = False"
| "quiet (JsonSettled _ _) = False"
| "quiet _ = True"

fun exchange :: "event list \<Rightarrow> event list \<Rightarrow> outcome \<Rightarrow> event list" where
  \<comment> \<open>one exchange: the submission, then the settlements of its outcome, with other
      events (\<open>n1\<close>, \<open>n2\<close>) arriving while it is in flight\<close>
  "exchange n1 n2 (FetchRejected e) = AskAI # n1 @ [FetchSettled 0 (Inl e)]"
| "exchange n1 n2 (NotOk statusText r) =
     AskAI # n1 @ FetchSettled 0 (Inr (False, statusText)) # n2 @ [JsonSettled 0 r]"
| "exchange n1 n2 (Ok statusText r) =
     AskAI # n1 @ FetchSettled 0 (Inr (True, statusText)) # n2 @ [JsonSettled 0 r]"

definition english_reply :: "jsval \<Rightarrow> jsval" where
  \<comment> \<open>\<open>modelResponseInEnglish\<close> for a parsed body that is not \<open>null\<close>\<close>
  "english_reply result =
     (if truthy (text_path result) then text_path result else JStr placeholder)"

fun failed :: "string \<Rightarrow> outcome \<Rightarrow> bool" where
  \<comment> \<open>the outcomes at which a step of \<open>handleAskAI\<close> fails, in a session of language \<open>l\<close>:
      the \<open>fetch\<close>, the response, the reading of the body or of the reply in it, or the
      translation of the reply\<close>
  "failed l (FetchRejected _) = True"
| "failed l (NotOk _ _) = True"
| "failed l (Ok _ (Inl _)) = True"
| "failed l (Ok _ (Inr result)) =
     (nullish result
      \<or> (\<not> startsWith l ''en'' \<and> isl (translateText (english_reply result) l ''en-US'')))"

fun from_exchange :: "effect \<Rightarrow> bool" where
  \<comment> \<open>the effects that only \<open>handleAskAI\<close> produces\<close>
  "from_exchange (TranslateCall _ _ _) = True"
| "from_exchange (FetchCall _) = True"
| "from_exchange (UnhandledRejection _) = True"
| "from_exchange (ConsoleError label _) = (label = ''Gemini API call failed:'')"
| "from_exchange _ = False"

definition exchange_log :: "World \<Rightarrow> effect list" where
  "exchange_log s = filter from_exchange (effects s)"

fun is_call :: "effect \<Rightarrow> bool" where
  "is_call (TranslateCall _ _ _) = True"
| "is_call (FetchCall _) = True"
| "is_call _ = False"

definition calls :: "World \<Rightarrow> effect list" where
  \<comment> \<open>the calls of the translation and of the generation service so far, in order\<close>
  "calls s = filter is_call (effects s)"

fun is_rejection :: "effect \<Rightarrow> bool" where
  "is_rejection (UnhandledRejection _) = True"
| "is_rejection _ = False"

definition rejections :: "World \<Rightarrow> effect list" where
  \<comment> \<open>the failures that left \<open>handleAskAI\<close> unhandled so far\<close>
  "rejections s = filter is_rejection (effects s)"

fun is_caught :: "effect \<Rightarrow> bool" where
  "is_caught (ConsoleError label _) = (label = ''Gemini API call failed:'')"
| "is_caught _ = False"

definition caught :: "World \<Rightarrow> nat" where
  \<comment> \<open>how many times the \<open>catch\<close> block of \<open>handleAskAI\<close> has run\<close>
  "caught s = length (filter is_caught (effects s))"


fun outcome_reply :: "(jsval \<Rightarrow> string) \<Rightarrow> string \<Rightarrow> outcome \<Rightarrow> jsval \<times> effect list" where
  \<comment> \<open>what the \<open>try\<close>/\<open>catch\<close> block makes of an outcome in a session of language \<open>l\<close>: the
      text of the assistant message, and the effects after the \<open>fetch\<close>\<close>
  "outcome_reply js l (FetchRejected e) =
     (JStr apology, [ConsoleError ''Gemini API call failed:'' e])"
| "outcome_reply js l (NotOk statusText (Inl e)) =
     (JStr apology, [ConsoleError ''Gemini API call failed:'' e])"
| "outcome_reply js l (NotOk statusText (Inr errorData)) =
     (JStr apology,
      [ConsoleError ''Gemini API call failed:'' (api_error js statusText errorData)])"
| "outcome_reply js l (Ok statusText (Inl e)) =
     (JStr apology, [ConsoleError ''Gemini API call failed:'' e])"
| "outcome_reply js l (Ok statusText (Inr result)) =
     (if nullish result then (JStr apology, [ConsoleError ''Gemini API call failed:'' NullDeref])
      else if startsWith l ''en'' then (english_reply result, [])
      else (case translateText (english_reply result) l ''en-US'' of
              Inl e \<Rightarrow>
                (JStr apology,
                 [TranslateCall (english_reply result) l ''en-US'',
                  ConsoleError ''Gemini API call failed:'' e])
            | Inr translatedResponse \<Rightarrow>
                (translatedResponse, [TranslateCall (english_reply result) l ''en-US''])))"

text \<open>
  Counting the exchanges of a run: an exchange ends at the event that clears the
  in-flight flag, through the \<open>catch\<close> block (a failure) or not (a success).
\<close>

fun successes :: "(jsval \<Rightarrow> string) \<Rightarrow> World \<Rightarrow> event list \<Rightarrow> nat" where
  "successes js s [] = 0"
| "successes js s (ev # es) =
     (if isLoading s \<and> \<not> isLoading (step js s ev) \<and> caught (step js s ev) = caught s
      then 1 else 0)
     + successes js (step js s ev) es"

fun failures :: "(jsval \<Rightarrow> string) \<Rightarrow> World \<Rightarrow> event list \<Rightarrow> nat" where
  "failures js s [] = 0"
| "failures js s (ev # es) =
     (if isLoading s \<and> \<not> isLoading (step js s ev) \<and> caught (step js s ev) \<noteq> caught s
      then 1 else 0)
     + failures js (step js s ev) es"

definition alternating :: "nat \<Rightarrow> Role list" where
  \<comment> \<open>user, assistant, user, assistant, ...\<close>
  "alternating n = map (\<lambda>i. if even i then User else Model) [0..<n]"

text \<open>The states of the component while a call is suspended, and between calls.\<close>

definition consistent :: "World \<Rightarrow> bool" where
  "consistent s =
     (if isLoading s then (\<exists>x. pending s = [x] \<and> updatedHistory x = chatHistory s)
      else pending s = [])"

definition tidy :: "World \<Rightarrow> bool" where
  \<comment> \<open>the history alternates, and it ends with a user message exactly while a call is
      suspended\<close>
  "tidy s =
     (map role (chatHistory s) = alternating (length (chatHistory s))
      \<and> (isLoading s \<longleftrightarrow> odd (length (chatHistory s))))"

definition flying :: "Exchange \<Rightarrow> ChatMessage list \<Rightarrow> effect list \<Rightarrow> World \<Rightarrow> bool" where
  "flying x h log s =
     (isLoading s \<and> pending s = [x] \<and> chatHistory s = h \<and> exchange_log s = log)"

definition landed :: "ChatMessage list \<Rightarrow> effect list \<Rightarrow> World \<Rightarrow> bool" where
  "landed h log s =
     (\<not> isLoading s \<and> pending s = [] \<and> chatHistory s = h \<and> exchange_log s = log)"

text \<open>A response body that carries \<open>t\<close> at \<open>candidates[0].content.parts[0].text\<close>.\<close>

definition reply_body :: "jsval \<Rightarrow> jsval" where
  "reply_body t =
     JObj [(''candidates'', JArr [JObj [(''content'',
             JObj [(''parts'', JArr [JObj [(''text'', t)]])])]])]"

section \<open>Auxiliary facts\<close>

lemmas model_defs =
  run_def init_def handleAskAI_def send_def emit_def on_response_def on_error_data_def
  on_result_def catch_block_def finish_def set_stage_def api_error_def reply_text_def
  text_path_def opt_prop_def opt_index0_def translateText_def startsWith_def
  split_first_def handleToggleListening_def start_def deliver_def capture_ended_def
  onresult_def onerror_def onend_def

lemma trim_hello: "trim ''hello'' = ''hello''"
  by code_simp

lemma trim_thanks: "trim ''thank you'' = ''thank you''"
  by code_simp

lemma trim_again: "trim ''again'' = ''again''"
  by code_simp

lemma trim_blank: "trim [CHR 0x20, CHR 0x09, CHR 0xC2, CHR 0xA0, CHR 0x0A] = []"
  by code_simp

lemma run_append: "run js s (es @ fs) = run js (run js s es) fs"
  by (simp add: run_def)

lemma run_Cons: "run js s (e # es) = run js (step js s e) es"
  by (simp add: run_def)

lemma run_Nil: "run js s [] = s"
  by (simp add: run_def)

lemma translateText_string:
  "translateText (JStr t) targetLang sourceLang =
     Inr (if startsWith targetLang ''en'' then JStr t
          else JStr (''['' @ split_first (CHR ''-'') targetLang @ ''] '' @ t))"
  by (simp add: translateText_def)

lemma translateText_to_english: "translateText (JStr t) ''en-US'' l = Inr (JStr t)"
  by (simp add: translateText_string startsWith_def)

lemma handleAskAI_rejected: "trim (userInput s) = [] \<or> isLoading s \<Longrightarrow> handleAskAI s = s"
  by (auto simp: handleAskAI_def)

lemma handleAskAI_accepted:
  assumes "trim (userInput s) \<noteq> []" "\<not> isLoading s"
  shows "handleAskAI s =
     s\<lparr>userInput := [],
       chatHistory := chatHistory s @ [\<lparr>role = User, text = JStr (userInput s)\<rparr>],
       isLoading := True,
       pending := pending s
          @ [\<lparr>updatedHistory = chatHistory s @ [\<lparr>role = User, text = JStr (userInput s)\<rparr>],
              language = selectedLanguage s, stage = AwaitFetch\<rparr>],
       effects := effects s
          @ (if startsWith (selectedLanguage s) ''en'' then []
             else [TranslateCall (JStr (userInput s)) ''en-US'' (selectedLanguage s)])
          @ [FetchCall (JStr (userInput s))]\<rparr>"
  using assms
  by (simp add: handleAskAI_def send_def emit_def Let_def translateText_to_english)

subsection \<open>At most one suspended call, holding the current history\<close>

lemma consistent_init: "consistent (init supported)"
  by (simp add: consistent_def init_def)

lemma consistent_step: "consistent s \<Longrightarrow> consistent (step js s ev)"
proof (cases ev)
  case AskAI
  assume c: "consistent s"
  show ?thesis
  proof (cases "trim (userInput s) = [] \<or> isLoading s")
    case True
    with c AskAI show ?thesis by (simp add: handleAskAI_rejected)
  next
    case False
    with c AskAI show ?thesis
      by (simp add: handleAskAI_accepted consistent_def)
  qed
next
  case (ToggleListening p)
  assume "consistent s"
  with ToggleListening show ?thesis
    by (auto simp: consistent_def handleToggleListening_def emit_def split: option.splits)
next
  case (RecResult t)
  assume "consistent s"
  with RecResult show ?thesis
    by (auto simp: consistent_def deliver_def onresult_def split: option.splits)
next
  case (RecError t)
  assume "consistent s"
  with RecError show ?thesis
    by (auto simp: consistent_def deliver_def onerror_def emit_def split: option.splits)
next
  case RecEnd
  assume "consistent s"
  with RecEnd show ?thesis
    by (auto simp: consistent_def capture_ended_def onend_def split: option.splits)
next
  case (FetchSettled i r)
  assume "consistent s"
  with FetchSettled show ?thesis
    by (auto simp: consistent_def on_response_def catch_block_def finish_def emit_def
                   set_stage_def
             split: stage.splits sum.splits if_splits)
next
  case (JsonSettled i r)
  assume "consistent s"
  with JsonSettled show ?thesis
    by (auto simp: consistent_def on_error_data_def on_result_def catch_block_def finish_def
                   emit_def Let_def
             split: stage.splits sum.splits if_splits)
qed (auto simp: consistent_def)

lemma consistent_run: "consistent s \<Longrightarrow> consistent (run js s es)"
  unfolding run_def by (induction es arbitrary: s) (simp_all add: consistent_step)

lemma consistent_reachable: "consistent (run js (init supported) es)"
  by (rule consistent_run [OF consistent_init])

lemma flight_step:
  assumes "consistent s" "isLoading s"
  shows "(isLoading (step js s ev) \<longrightarrow> chatHistory (step js s ev) = chatHistory s)
       \<and> (\<not> isLoading (step js s ev) \<longrightarrow>
            (\<exists>m. role m = Model \<and> chatHistory (step js s ev) = chatHistory s @ [m]))"
proof (cases ev)
  case AskAI
  with assms show ?thesis by (simp add: handleAskAI_rejected)
next
  case (ToggleListening p)
  with assms show ?thesis
    by (auto simp: handleToggleListening_def emit_def split: option.splits)
next
  case (RecResult t)
  with assms show ?thesis
    by (auto simp: deliver_def onresult_def split: option.splits)
next
  case (RecError t)
  with assms show ?thesis
    by (auto simp: deliver_def onerror_def emit_def split: option.splits)
next
  case RecEnd
  with assms show ?thesis
    by (auto simp: capture_ended_def onend_def split: option.splits)
next
  case (FetchSettled i r)
  with assms show ?thesis
    by (auto simp: consistent_def on_response_def catch_block_def finish_def emit_def
                   set_stage_def
             split: stage.splits sum.splits if_splits)
next
  case (JsonSettled i r)
  with assms show ?thesis
    by (auto simp: consistent_def on_error_data_def on_result_def catch_block_def finish_def
                   emit_def Let_def
             split: stage.splits sum.splits if_splits)
qed (use assms in auto)

lemma idle_step:
  assumes "consistent s" "\<not> isLoading s"
  shows "(\<not> isLoading (step js s ev) \<and> chatHistory (step js s ev) = chatHistory s)
       \<or> (isLoading (step js s ev)
           \<and> chatHistory (step js s ev)
               = chatHistory s @ [\<lparr>role = User, text = JStr (userInput s)\<rparr>])"
proof (cases ev)
  case AskAI
  show ?thesis
  proof (cases "trim (userInput s) = []")
    case True
    with assms AskAI show ?thesis by (simp add: handleAskAI_rejected)
  next
    case False
    with assms AskAI show ?thesis by (simp add: handleAskAI_accepted)
  qed
next
  case (ToggleListening p)
  with assms show ?thesis
    by (auto simp: handleToggleListening_def emit_def split: option.splits)
next
  case (RecResult t)
  with assms show ?thesis
    by (auto simp: deliver_def onresult_def split: option.splits)
next
  case (RecError t)
  with assms show ?thesis
    by (auto simp: deliver_def onerror_def emit_def split: option.splits)
next
  case RecEnd
  with assms show ?thesis
    by (auto simp: capture_ended_def onend_def split: option.splits)
next
  case (FetchSettled i r)
  with assms show ?thesis by (simp add: consistent_def)
next
  case (JsonSettled i r)
  with assms show ?thesis by (simp add: consistent_def)
qed (use assms in auto)

subsection \<open>The shape and the length of the history\<close>

lemma alternating_Suc:
  "alternating (Suc n) = alternating n @ [if even n then User else Model]"
  by (simp add: alternating_def)

lemma alternating_4: "alternating 4 = [User, Model, User, Model]"
  by code_simp

lemma tidy_init: "tidy (init supported)"
  by (simp add: tidy_def init_def alternating_def)

lemma tidy_step:
  assumes c: "consistent s" and t: "tidy s"
  shows "tidy (step js s ev)"
proof (cases "isLoading s")
  case True
  note f = flight_step [OF c True, of js ev]
  show ?thesis
  proof (cases "isLoading (step js s ev)")
    case True
    with f t \<open>isLoading s\<close> show ?thesis by (simp add: tidy_def)
  next
    case False
    with f obtain m where "role m = Model" "chatHistory (step js s ev) = chatHistory s @ [m]"
      by blast
    with False t \<open>isLoading s\<close> show ?thesis by (simp add: tidy_def alternating_Suc)
  qed
next
  case False
  from idle_step [OF c False, of js ev] t False show ?thesis
    by (auto simp: tidy_def alternating_Suc)
qed

lemma tidy_run: "consistent s \<Longrightarrow> tidy s \<Longrightarrow> tidy (run js s es)"
  unfolding run_def
  by (induction es arbitrary: s) (simp_all add: tidy_step consistent_step)

lemma tidy_reachable: "tidy (run js (init supported) es)"
  by (rule tidy_run [OF consistent_init tidy_init])

lemma tidy_last_user:
  assumes "tidy s" "isLoading s"
  shows "\<exists>h u. chatHistory s = h @ [u] \<and> role u = User"
proof -
  from assms have odd: "odd (length (chatHistory s))" by (simp add: tidy_def)
  then have "chatHistory s \<noteq> []" by auto
  then obtain h u where hu: "chatHistory s = h @ [u]" by (meson rev_exhaust)
  with odd have "even (length h)" by simp
  moreover from assms(1) hu have "map role (h @ [u]) = alternating (Suc (length h))"
    by (simp add: tidy_def)
  ultimately have "role u = User" by (simp add: alternating_Suc)
  with hu show ?thesis by blast
qed

lemma count_step:
  assumes c: "consistent s"
  shows "length (chatHistory (step js s ev)) + (if isLoading s then 1 else 0)
       = length (chatHistory s) + (if isLoading (step js s ev) then 1 else 0)
         + 2 * (if isLoading s \<and> \<not> isLoading (step js s ev) then 1 else 0)"
proof (cases "isLoading s")
  case True
  from flight_step [OF c True, of js ev] True show ?thesis by auto
next
  case False
  from idle_step [OF c False, of js ev] False show ?thesis by auto
qed

lemma count_run:
  "consistent s \<Longrightarrow>
   length (chatHistory (run js s es)) + (if isLoading s then 1 else 0)
     = length (chatHistory s) + (if isLoading (run js s es) then 1 else 0)
       + 2 * (successes js s es + failures js s es)"
proof (induction es arbitrary: s)
  case Nil
  then show ?case by (simp add: run_Nil)
next
  case (Cons ev es)
  note one = count_step [OF Cons.prems, of js ev]
  note more = Cons.IH [OF consistent_step [OF Cons.prems, of js ev]]
  have "successes js s (ev # es) + failures js s (ev # es)
          = (if isLoading s \<and> \<not> isLoading (step js s ev) then 1 else 0)
            + (successes js (step js s ev) es + failures js (step js s ev) es)"
    by simp
  with one more show ?case by (simp add: run_Cons)
qed

subsection \<open>One exchange, from submission to the final append\<close>

lemma quiet_step: "flying x h log s \<Longrightarrow> quiet ev \<Longrightarrow> flying x h log (step js s ev)"
proof (cases ev)
  case AskAI
  assume "flying x h log s"
  with AskAI show ?thesis by (simp add: flying_def handleAskAI_rejected)
next
  case (ToggleListening p)
  assume "flying x h log s"
  with ToggleListening show ?thesis
    by (auto simp: flying_def exchange_log_def handleToggleListening_def emit_def
             split: option.splits)
next
  case (RecResult t)
  assume "flying x h log s"
  with RecResult show ?thesis
    by (auto simp: flying_def exchange_log_def deliver_def onresult_def split: option.splits)
next
  case (RecError c)
  assume "flying x h log s"
  with RecError show ?thesis
    by (auto simp: flying_def exchange_log_def deliver_def onerror_def emit_def
             split: option.splits)
next
  case RecEnd
  assume "flying x h log s"
  with RecEnd show ?thesis
    by (auto simp: flying_def exchange_log_def capture_ended_def onend_def
             split: option.splits)
qed (auto simp: flying_def exchange_log_def)

lemma quiet_run: "flying x h log s \<Longrightarrow> list_all quiet ns \<Longrightarrow> flying x h log (run js s ns)"
  unfolding run_def by (induction ns arbitrary: s) (simp_all add: quiet_step)

lemma fetch_rejected_step:
  "flying x h log s \<Longrightarrow> stage x = AwaitFetch \<Longrightarrow>
   landed (updatedHistory x @ [\<lparr>role = Model, text = JStr apology\<rparr>])
          (log @ [ConsoleError ''Gemini API call failed:'' e])
          (step js s (FetchSettled 0 (Inl e)))"
  by (simp add: flying_def landed_def exchange_log_def on_response_def catch_block_def
                finish_def emit_def)

lemma fetch_response_step:
  "flying x h log s \<Longrightarrow> stage x = AwaitFetch \<Longrightarrow>
   flying (x\<lparr>stage := if ok then AwaitResult else AwaitErrorData statusText\<rparr>) h log
          (step js s (FetchSettled 0 (Inr (ok, statusText))))"
  by (simp add: flying_def exchange_log_def on_response_def set_stage_def)

lemma error_data_step:
  "flying x h log s \<Longrightarrow> stage x = AwaitErrorData statusText \<Longrightarrow>
   landed (updatedHistory x @ [\<lparr>role = Model, text = JStr apology\<rparr>])
          (log @ snd (outcome_reply js l (NotOk statusText r)))
          (step js s (JsonSettled 0 r))"
  by (cases r)
     (simp_all add: flying_def landed_def exchange_log_def on_error_data_def catch_block_def
                finish_def emit_def)

lemma result_step:
  "flying x h log s \<Longrightarrow> stage x = AwaitResult \<Longrightarrow>
   landed (updatedHistory x
             @ [\<lparr>role = Model, text = fst (outcome_reply js (language x) (Ok statusText r))\<rparr>])
          (log @ snd (outcome_reply js (language x) (Ok statusText r)))
          (step js s (JsonSettled 0 r))"
  by (cases r)
     (auto simp: flying_def landed_def exchange_log_def on_result_def catch_block_def
                 finish_def emit_def Let_def reply_text_def english_reply_def
           split: sum.splits)

lemma exchange_lands:
  assumes c: "consistent s" and idle: "\<not> isLoading s" and ok: "trim (userInput s) \<noteq> []"
    and q1: "list_all quiet n1" and q2: "list_all quiet n2"
  shows "landed
     (chatHistory s @ [\<lparr>role = User, text = JStr (userInput s)\<rparr>,
                       \<lparr>role = Model, text = fst (outcome_reply js (selectedLanguage s) out)\<rparr>])
     (exchange_log s
        @ (if startsWith (selectedLanguage s) ''en'' then []
           else [TranslateCall (JStr (userInput s)) ''en-US'' (selectedLanguage s)])
        @ [FetchCall (JStr (userInput s))] @ snd (outcome_reply js (selectedLanguage s) out))
     (run js s (exchange n1 n2 out))"
proof -
  define h where "h = chatHistory s @ [\<lparr>role = User, text = JStr (userInput s)\<rparr>]"
  define x where "x = \<lparr>updatedHistory = h, language = selectedLanguage s, stage = AwaitFetch\<rparr>"
  define log where "log = exchange_log s
        @ (if startsWith (selectedLanguage s) ''en'' then []
           else [TranslateCall (JStr (userInput s)) ''en-US'' (selectedLanguage s)])
        @ [FetchCall (JStr (userInput s))]"
  from c idle have "pending s = []" by (simp add: consistent_def)
  with idle ok have "flying x h log (step js s AskAI)"
    by (simp add: handleAskAI_accepted flying_def exchange_log_def x_def h_def log_def)
  then have f1: "flying x h log (run js (step js s AskAI) n1)"
    using q1 by (rule quiet_run)
  have sx: "stage x = AwaitFetch" "updatedHistory x = h" "language x = selectedLanguage s"
    by (simp_all add: x_def)
  show ?thesis
  proof (cases out)
    case (FetchRejected e)
    from fetch_rejected_step [OF f1 sx(1), where js = js and e = e] FetchRejected
    show ?thesis
      by (simp add: run_Cons run_append run_Nil sx h_def log_def)
  next
    case (NotOk statusText r)
    let ?x = "x\<lparr>stage := if False then AwaitResult else AwaitErrorData statusText\<rparr>"
    let ?s1 = "step js (run js (step js s AskAI) n1) (FetchSettled 0 (Inr (False, statusText)))"
    from fetch_response_step [OF f1 sx(1), where ok = False and statusText = statusText and js = js]
    have "flying ?x h log ?s1" .
    then have "flying ?x h log (run js ?s1 n2)"
      using q2 by (rule quiet_run)
    from error_data_step [OF this, where js = js and l = "selectedLanguage s" and r = r] NotOk
    show ?thesis
      by (cases r) (simp_all add: run_Cons run_append run_Nil sx h_def log_def)
  next
    case (Ok statusText r)
    let ?x = "x\<lparr>stage := if True then AwaitResult else AwaitErrorData statusText\<rparr>"
    let ?s1 = "step js (run js (step js s AskAI) n1) (FetchSettled 0 (Inr (True, statusText)))"
    from fetch_response_step [OF f1 sx(1), where ok = True and statusText = statusText and js = js]
    have "flying ?x h log ?s1" .
    then have "flying ?x h log (run js ?s1 n2)"
      using q2 by (rule quiet_run)
    from result_step [OF this, where js = js and statusText = statusText and r = r] Ok
    show ?thesis
      by (simp add: run_Cons run_append run_Nil sx h_def log_def)
  qed
qed

lemma exchange_from_reachable:
  assumes "\<not> isLoading (run js (init supported) es)"
    and "trim (userInput (run js (init supported) es)) \<noteq> []"
    and "list_all quiet n1" and "list_all quiet n2"
  shows "landed
     (chatHistory (run js (init supported) es)
        @ [\<lparr>role = User, text = JStr (userInput (run js (init supported) es))\<rparr>,
           \<lparr>role = Model,
            text = fst (outcome_reply js (selectedLanguage (run js (init supported) es)) out)\<rparr>])
     (exchange_log (run js (init supported) es)
        @ (if startsWith (selectedLanguage (run js (init supported) es)) ''en'' then []
           else [TranslateCall (JStr (userInput (run js (init supported) es))) ''en-US''
                   (selectedLanguage (run js (init supported) es))])
        @ [FetchCall (JStr (userInput (run js (init supported) es)))]
        @ snd (outcome_reply js (selectedLanguage (run js (init supported) es)) out))
     (run js (init supported) (es @ exchange n1 n2 out))"
  unfolding run_append by (rule exchange_lands [OF consistent_reachable assms])

lemma failed_reply: "failed l out \<Longrightarrow> fst (outcome_reply js l out) = JStr apology"
  by (induction js l out rule: outcome_reply.induct) (auto split: sum.splits)

lemma rejections_step: "rejections (step js s ev) = rejections s"
proof (cases ev)
  case AskAI
  then show ?thesis
    by (simp add: rejections_def handleAskAI_def send_def emit_def Let_def
                  translateText_to_english)
next
  case (ToggleListening p)
  then show ?thesis
    by (auto simp: rejections_def handleToggleListening_def emit_def split: option.splits)
next
  case (RecResult t)
  then show ?thesis
    by (auto simp: rejections_def deliver_def onresult_def split: option.splits)
next
  case (RecError c)
  then show ?thesis
    by (auto simp: rejections_def deliver_def onerror_def emit_def split: option.splits)
next
  case RecEnd
  then show ?thesis
    by (auto simp: rejections_def capture_ended_def onend_def split: option.splits)
next
  case (FetchSettled i r)
  then show ?thesis
    by (auto simp: rejections_def on_response_def catch_block_def finish_def emit_def
                   set_stage_def
             split: stage.splits sum.splits)
next
  case (JsonSettled i r)
  then show ?thesis
    by (auto simp: rejections_def on_error_data_def on_result_def catch_block_def finish_def
                   emit_def Let_def
             split: stage.splits sum.splits)
qed (simp_all add: rejections_def)

lemma rejections_run: "rejections (run js s es) = rejections s"
  unfolding run_def by (induction es arbitrary: s) (simp_all add: rejections_step)

lemma rejections_reachable: "rejections (run js (init supported) es) = []"
  by (simp add: rejections_run) (simp add: rejections_def init_def)


lemma calls_log: "calls s = filter is_call (exchange_log s)"
proof -
  have "\<And>e. from_exchange e \<and> is_call e \<longleftrightarrow> is_call e"
    by (case_tac e) auto
  then show ?thesis by (simp add: calls_def exchange_log_def)
qed

lemma landed_calls: "landed h (log @ new) s \<Longrightarrow> calls s = filter is_call log @ filter is_call new"
  by (simp add: landed_def calls_log)

section \<open>Properties\<close>

text \<open>
  The theorems hold for every \<open>JSON.stringify\<close> (the parameter \<open>js\<close>). The examples leave
  it unspecified (\<open>undefined\<close>): none of them applies it.
\<close>

subsection \<open>Translation\<close>

text \<open>
  C4. For every text and every source language, when the target language starts with
  \<open>en\<close> the translation resolves to the input text, unchanged. The identity law
  \<open>translate(text, en, en) = text\<close> is the instance where the source is English too.
\<close>

theorem translateText_english_identity:
  "startsWith targetLang ''en'' \<Longrightarrow>
   translateText (JStr txt) targetLang sourceLang = Inr (JStr txt)"
  by (simp add: translateText_def)

theorem translateText_english_identity_witness:
  "startsWith ''en-US'' ''en''
   \<and> translateText (JStr ''I feel stressed'') ''en-US'' ''en-US'' = Inr (JStr ''I feel stressed'')"
proof -
  have h: "startsWith ''en-US'' ''en''" by (simp add: startsWith_def)
  from translateText_english_identity [OF h, of "''I feel stressed''" "''en-US''"] h
  show ?thesis by blast
qed

text \<open>
  C9. For every non-empty text and every pair of languages, the translation resolves
  (it never rejects) and what it resolves to is a string that is not empty.
\<close>

theorem translateText_nonempty:
  "txt \<noteq> [] \<Longrightarrow>
   \<exists>r. translateText (JStr txt) targetLang sourceLang = Inr (JStr r) \<and> r \<noteq> []"
  by (simp add: translateText_def)

theorem translateText_nonempty_witness:
  "''hello'' \<noteq> [] \<and> translateText (JStr ''hello'') ''hi-IN'' ''en-US'' = Inr (JStr ''[hi] hello'')"
proof -
  have h: "''hello'' \<noteq> []" by simp
  from translateText_nonempty [OF h, of "''hi-IN''" "''en-US''"]
  obtain r where "translateText (JStr ''hello'') ''hi-IN'' ''en-US'' = Inr (JStr r)" by blast
  moreover have "translateText (JStr ''hello'') ''hi-IN'' ''en-US'' = Inr (JStr ''[hi] hello'')"
    by (simp add: translateText_def startsWith_def split_first_def)
  ultimately show ?thesis using h by blast
qed

subsection \<open>The entry guard\<close>

text \<open>
  C5. When the input is empty or consists of white space only, a submission changes
  nothing at all: the history, the in-flight flag, the suspended calls and the record
  of effects (so no translation and no request) are what they were.
\<close>

theorem blank_input_rejected:
  "trim (userInput s) = [] \<Longrightarrow> step js s AskAI = s"
  by (simp add: handleAskAI_rejected)

theorem blank_input_rejected_witness:
  "trim (userInput ((init True)\<lparr>userInput := [CHR 0x20, CHR 0x09, CHR 0xC2, CHR 0xA0, CHR 0x0A]\<rparr>)) = []
   \<and> step undefined ((init True)\<lparr>userInput := [CHR 0x20, CHR 0x09, CHR 0xC2, CHR 0xA0, CHR 0x0A]\<rparr>) AskAI
       = (init True)\<lparr>userInput := [CHR 0x20, CHR 0x09, CHR 0xC2, CHR 0xA0, CHR 0x0A]\<rparr>"
proof -
  have h: "trim (userInput ((init True)\<lparr>userInput := [CHR 0x20, CHR 0x09, CHR 0xC2, CHR 0xA0, CHR 0x0A]\<rparr>)) = []"
    by (simp add: trim_blank)
  from blank_input_rejected [OF h, of undefined] h show ?thesis by blast
qed

text \<open>
  C3. In every state the component can reach, the in-flight flag is true exactly while
  a call of \<open>handleAskAI\<close> is suspended, and at most one is. An accepted submission sets
  the flag; while it is set, a further submission changes nothing (no history change,
  no effect), every event either leaves the flag set and the history as it is, or
  clears the flag together with the append of one assistant message.
\<close>

theorem single_flight:
  fixes js supported es ev
  defines "s \<equiv> run js (init supported) es"
  shows "(isLoading s \<longleftrightarrow> pending s \<noteq> []) \<and> length (pending s) \<le> 1
     \<and> (\<not> isLoading s \<and> trim (userInput s) \<noteq> [] \<longrightarrow> isLoading (step js s AskAI))
     \<and> (isLoading s \<longrightarrow> step js s AskAI = s)
     \<and> (isLoading s \<and> isLoading (step js s ev) \<longrightarrow> chatHistory (step js s ev) = chatHistory s)
     \<and> (isLoading s \<and> \<not> isLoading (step js s ev) \<longrightarrow>
            (\<exists>m. role m = Model \<and> chatHistory (step js s ev) = chatHistory s @ [m]))"
proof -
  have c: "consistent s" unfolding s_def by (rule consistent_reachable)
  then have "(isLoading s \<longleftrightarrow> pending s \<noteq> []) \<and> length (pending s) \<le> 1"
    by (auto simp: consistent_def split: if_splits)
  moreover have "\<not> isLoading s \<and> trim (userInput s) \<noteq> [] \<longrightarrow> isLoading (step js s AskAI)"
    by (simp add: handleAskAI_accepted)
  moreover have "isLoading s \<longrightarrow> step js s AskAI = s"
    by (simp add: handleAskAI_rejected)
  moreover note flight_step [OF c, of js ev]
  ultimately show ?thesis by blast
qed

theorem single_flight_witness:
  "\<not> isLoading (run undefined (init True) [ChangeInput ''hello''])
   \<and> trim (userInput (run undefined (init True) [ChangeInput ''hello''])) \<noteq> []
   \<and> isLoading (run undefined (init True) [ChangeInput ''hello'', AskAI])
   \<and> pending (run undefined (init True) [ChangeInput ''hello'', AskAI]) \<noteq> []
   \<and> step undefined (run undefined (init True) [ChangeInput ''hello'', AskAI]) AskAI
       = run undefined (init True) [ChangeInput ''hello'', AskAI]
   \<and> isLoading (step undefined (run undefined (init True) [ChangeInput ''hello'', AskAI])
                  (FetchSettled 0 (Inr (True, ''OK''))))
   \<and> chatHistory (step undefined (run undefined (init True) [ChangeInput ''hello'', AskAI])
                    (FetchSettled 0 (Inr (True, ''OK''))))
       = chatHistory (run undefined (init True) [ChangeInput ''hello'', AskAI])
   \<and> \<not> isLoading (step undefined (run undefined (init True) [ChangeInput ''hello'', AskAI])
                    (FetchSettled 0 (Inl (External ''Failed to fetch''))))
   \<and> length (chatHistory (step undefined (run undefined (init True) [ChangeInput ''hello'', AskAI])
                    (FetchSettled 0 (Inl (External ''Failed to fetch'')))))
       = Suc (length (chatHistory (run undefined (init True) [ChangeInput ''hello'', AskAI])))"
proof -
  let ?js = "undefined :: jsval \<Rightarrow> string"
  let ?idle = "run ?js (init True) [ChangeInput ''hello'']"
  let ?busy = "run ?js (init True) [ChangeInput ''hello'', AskAI]"
  let ?ok = "FetchSettled 0 (Inr (True, ''OK''))"
  let ?ko = "FetchSettled 0 (Inl (External ''Failed to fetch''))"
  have idle: "?idle = (init True)\<lparr>userInput := ''hello''\<rparr>"
    by (simp add: run_def init_def)
  have h1: "\<not> isLoading ?idle" unfolding idle by (simp add: init_def)
  have h2: "trim (userInput ?idle) \<noteq> []" unfolding idle by (simp add: trim_hello)
  have busy: "?busy = step ?js ?idle AskAI" by (simp only: run_def foldl.simps)
  from single_flight [of ?js True "[ChangeInput ''hello'']" AskAI] h1 h2
  have "isLoading (step ?js ?idle AskAI)" by blast
  then have l: "isLoading ?busy" by (simp only: busy)
  from single_flight [of ?js True "[ChangeInput ''hello'', AskAI]" AskAI] l
  have p: "pending ?busy \<noteq> []" "step ?js ?busy AskAI = ?busy" by blast+
  have k: "isLoading (step ?js ?busy ?ok)"
    unfolding busy idle by (simp add: model_defs trim_hello Let_def)
  from single_flight [of ?js True "[ChangeInput ''hello'', AskAI]" ?ok] l k
  have same: "chatHistory (step ?js ?busy ?ok) = chatHistory ?busy" by blast
  have e: "\<not> isLoading (step ?js ?busy ?ko)"
    unfolding busy idle by (simp add: model_defs trim_hello Let_def)
  from single_flight [of ?js True "[ChangeInput ''hello'', AskAI]" ?ko] l e
  obtain m where "chatHistory (step ?js ?busy ?ko) = chatHistory ?busy @ [m]" by blast
  then have grown: "length (chatHistory (step ?js ?busy ?ko)) = Suc (length (chatHistory ?busy))"
    by simp
  from h1 h2 l p k same e grown show ?thesis by blast
qed

subsection \<open>The exchange\<close>

text \<open>
  C1. Take any state the component can reach in which nothing is in flight and the
  input is not blank, submit, and let the generation call end in any way, with any
  other events arriving meanwhile. The translation toward English resolves (its text is
  the user's string). Whatever fails afterwards, the \<open>fetch\<close>, the reading of the body or
  of the reply in it, or the translation of the reply into the session language,
  nothing leaves \<open>handleAskAI\<close> unhandled: the flag is false again, no call is left
  suspended, and the history has grown by exactly the user message and one assistant
  message, which is the fixed apology whenever a step failed.
\<close>

theorem exchange_always_lands:
  fixes js supported es n1 n2 out
  defines "s \<equiv> run js (init supported) es"
  defines "s' \<equiv> run js (init supported) (es @ exchange n1 n2 out)"
  assumes "\<not> isLoading s" and "trim (userInput s) \<noteq> []"
    and "list_all quiet n1" and "list_all quiet n2"
  shows "translateText (JStr (userInput s)) ''en-US'' (selectedLanguage s)
           = Inr (JStr (userInput s))
     \<and> \<not> isLoading s' \<and> pending s' = [] \<and> rejections s' = []
     \<and> (\<exists>m. chatHistory s' = chatHistory s @ [\<lparr>role = User, text = JStr (userInput s)\<rparr>,
                                                 \<lparr>role = Model, text = m\<rparr>]
            \<and> (failed (selectedLanguage s) out \<longrightarrow> m = JStr apology))"
proof -
  note l = exchange_from_reachable [OF assms(3-6)[unfolded s_def], where out = out,
             folded s_def s'_def]
  then have "\<not> isLoading s'" "pending s' = []" by (simp_all add: landed_def)
  moreover have "rejections s' = []" unfolding s'_def by (rule rejections_reachable)
  moreover have "\<exists>m. chatHistory s' = chatHistory s @ [\<lparr>role = User, text = JStr (userInput s)\<rparr>,
                                                 \<lparr>role = Model, text = m\<rparr>]
            \<and> (failed (selectedLanguage s) out \<longrightarrow> m = JStr apology)"
    using l by (auto simp: landed_def failed_reply)
  ultimately show ?thesis by (simp add: translateText_to_english)
qed

theorem exchange_always_lands_witness:
  "\<not> isLoading (run undefined (init True) [SelectLanguage ''hi-IN'', ChangeInput ''hello''])
   \<and> trim (userInput (run undefined (init True) [SelectLanguage ''hi-IN'', ChangeInput ''hello'']))
       \<noteq> []
   \<and> list_all quiet [AskAI, SelectLanguage ''en-US''] \<and> list_all quiet [RecEnd]
   \<and> failed (selectedLanguage (run undefined (init True)
                [SelectLanguage ''hi-IN'', ChangeInput ''hello'']))
        (Ok ''OK'' (Inr (reply_body (JObj [(''toString'', JNum ''1'')]))))
   \<and> \<not> isLoading (run undefined (init True) ([SelectLanguage ''hi-IN'', ChangeInput ''hello'']
          @ exchange [AskAI, SelectLanguage ''en-US''] [RecEnd]
              (Ok ''OK'' (Inr (reply_body (JObj [(''toString'', JNum ''1'')]))))))
   \<and> rejections (run undefined (init True) ([SelectLanguage ''hi-IN'', ChangeInput ''hello'']
          @ exchange [AskAI, SelectLanguage ''en-US''] [RecEnd]
              (Ok ''OK'' (Inr (reply_body (JObj [(''toString'', JNum ''1'')])))))) = []
   \<and> chatHistory (run undefined (init True) ([SelectLanguage ''hi-IN'', ChangeInput ''hello'']
          @ exchange [AskAI, SelectLanguage ''en-US''] [RecEnd]
              (Ok ''OK'' (Inr (reply_body (JObj [(''toString'', JNum ''1'')]))))))
      = [\<lparr>role = User, text = JStr ''hello''\<rparr>, \<lparr>role = Model, text = JStr apology\<rparr>]"
proof -
  let ?js = "undefined :: jsval \<Rightarrow> string"
  let ?idle = "run ?js (init True) [SelectLanguage ''hi-IN'', ChangeInput ''hello'']"
  let ?out = "Ok ''OK'' (Inr (reply_body (JObj [(''toString'', JNum ''1'')])))"
  let ?done = "run ?js (init True) ([SelectLanguage ''hi-IN'', ChangeInput ''hello'']
          @ exchange [AskAI, SelectLanguage ''en-US''] [RecEnd] ?out)"
  have idle: "?idle = (init True)\<lparr>selectedLanguage := ''hi-IN'', userInput := ''hello''\<rparr>"
    by (simp add: run_def init_def)
  have h1: "\<not> isLoading ?idle"
    unfolding idle by (simp add: init_def)
  have h2: "trim (userInput ?idle) \<noteq> []"
    unfolding idle by (simp add: trim_hello)
  have h3: "list_all quiet [AskAI, SelectLanguage ''en-US'']" by simp
  have h4: "list_all quiet [RecEnd]" by simp
  have u: "userInput ?idle = ''hello''" "chatHistory ?idle = []"
    "selectedLanguage ?idle = ''hi-IN''"
    unfolding idle by (simp_all add: init_def)
  have h5: "failed (selectedLanguage ?idle) ?out"
    unfolding u
    by (simp add: reply_body_def english_reply_def text_path_def opt_prop_def opt_index0_def
                  translateText_def startsWith_def)
  from exchange_always_lands [OF h1 h2 h3 h4, where out = ?out]
  obtain m where "\<not> isLoading ?done" and "rejections ?done = []"
    and "chatHistory ?done = chatHistory ?idle @ [\<lparr>role = User, text = JStr (userInput ?idle)\<rparr>,
                                                 \<lparr>role = Model, text = m\<rparr>]"
    and "failed (selectedLanguage ?idle) ?out \<longrightarrow> m = JStr apology"
    by blast
  with h5 have "\<not> isLoading ?done" and "rejections ?done = []"
    and "chatHistory ?done = [\<lparr>role = User, text = JStr ''hello''\<rparr>, \<lparr>role = Model, text = JStr apology\<rparr>]"
    unfolding u by simp_all
  with h1 h2 h3 h4 h5 show ?thesis by blast
qed

text \<open>
  C2. In every session, that is after any sequence of events from the initial state,
  the roles in the history are user, assistant, user, assistant, ..., and its length is
  twice the number of exchanges that have ended, plus one while an exchange is in
  flight; so after \<open>N\<close> successful exchanges and no others it is \<open>2N\<close>. While an exchange
  is in flight the history ends with its user message, and the only message an event
  can add is one assistant message, directly after it; a user message is added only
  when nothing is in flight.
\<close>

theorem history_alternates:
  fixes js supported es ev
  defines "s \<equiv> run js (init supported) es"
  defines "n \<equiv> successes js (init supported) es"
  defines "f \<equiv> failures js (init supported) es"
  shows "map role (chatHistory s) = alternating (length (chatHistory s))
       \<and> length (chatHistory s) = 2 * n + 2 * f + (if isLoading s then 1 else 0)
       \<and> (f = 0 \<and> \<not> isLoading s \<longrightarrow> length (chatHistory s) = 2 * n)
       \<and> (isLoading s \<longrightarrow>
            (\<exists>h u. chatHistory s = h @ [u] \<and> role u = User
               \<and> (chatHistory (step js s ev) = h @ [u]
                    \<or> (\<exists>m. role m = Model \<and> chatHistory (step js s ev) = h @ [u, m]))))
       \<and> (\<not> isLoading s \<longrightarrow>
            chatHistory (step js s ev) = chatHistory s
            \<or> chatHistory (step js s ev)
                 = chatHistory s @ [\<lparr>role = User, text = JStr (userInput s)\<rparr>])"
proof -
  have c: "consistent s" unfolding s_def by (rule consistent_reachable)
  have t: "tidy s" unfolding s_def by (rule tidy_reachable)
  have roles: "map role (chatHistory s) = alternating (length (chatHistory s))"
    using t by (simp add: tidy_def)
  from count_run [OF consistent_init, of js supported es]
  have len: "length (chatHistory s) = 2 * n + 2 * f + (if isLoading s then 1 else 0)"
    by (simp add: s_def n_def f_def init_def)
  have flight: "isLoading s \<longrightarrow>
            (\<exists>h u. chatHistory s = h @ [u] \<and> role u = User
               \<and> (chatHistory (step js s ev) = h @ [u]
                    \<or> (\<exists>m. role m = Model \<and> chatHistory (step js s ev) = h @ [u, m])))"
  proof
    assume l: "isLoading s"
    from tidy_last_user [OF t l] obtain h u
      where hu: "chatHistory s = h @ [u]" "role u = User" by blast
    from flight_step [OF c l, of js ev]
    have "chatHistory (step js s ev) = chatHistory s
          \<or> (\<exists>m. role m = Model \<and> chatHistory (step js s ev) = chatHistory s @ [m])"
      by blast
    with hu show "\<exists>h u. chatHistory s = h @ [u] \<and> role u = User
               \<and> (chatHistory (step js s ev) = h @ [u]
                    \<or> (\<exists>m. role m = Model \<and> chatHistory (step js s ev) = h @ [u, m]))"
      by auto
  qed
  have idle: "\<not> isLoading s \<longrightarrow>
            chatHistory (step js s ev) = chatHistory s
            \<or> chatHistory (step js s ev)
                 = chatHistory s @ [\<lparr>role = User, text = JStr (userInput s)\<rparr>]"
    using idle_step [OF c, of js ev] by blast
  from roles len flight idle show ?thesis by simp
qed

theorem history_alternates_witness:
  "failures undefined (init True)
      [ChangeInput ''hello'', AskAI, AskAI, ChangeInput ''again'',
       FetchSettled 0 (Inr (True, ''OK'')), JsonSettled 0 (Inr (reply_body (JStr ''Rest well.''))),
       SelectLanguage ''hi-IN'', ChangeInput ''thank you'', AskAI,
       FetchSettled 0 (Inr (True, ''OK'')), AskAI, JsonSettled 0 (Inr (JObj []))] = 0
   \<and> \<not> isLoading (run undefined (init True)
      [ChangeInput ''hello'', AskAI, AskAI, ChangeInput ''again'',
       FetchSettled 0 (Inr (True, ''OK'')), JsonSettled 0 (Inr (reply_body (JStr ''Rest well.''))),
       SelectLanguage ''hi-IN'', ChangeInput ''thank you'', AskAI,
       FetchSettled 0 (Inr (True, ''OK'')), AskAI, JsonSettled 0 (Inr (JObj []))])
   \<and> successes undefined (init True)
      [ChangeInput ''hello'', AskAI, AskAI, ChangeInput ''again'',
       FetchSettled 0 (Inr (True, ''OK'')), JsonSettled 0 (Inr (reply_body (JStr ''Rest well.''))),
       SelectLanguage ''hi-IN'', ChangeInput ''thank you'', AskAI,
       FetchSettled 0 (Inr (True, ''OK'')), AskAI, JsonSettled 0 (Inr (JObj []))] = 2
   \<and> length (chatHistory (run undefined (init True)
      [ChangeInput ''hello'', AskAI, AskAI, ChangeInput ''again'',
       FetchSettled 0 (Inr (True, ''OK'')), JsonSettled 0 (Inr (reply_body (JStr ''Rest well.''))),
       SelectLanguage ''hi-IN'', ChangeInput ''thank you'', AskAI,
       FetchSettled 0 (Inr (True, ''OK'')), AskAI, JsonSettled 0 (Inr (JObj []))])) = 4
   \<and> map role (chatHistory (run undefined (init True)
      [ChangeInput ''hello'', AskAI, AskAI, ChangeInput ''again'',
       FetchSettled 0 (Inr (True, ''OK'')), JsonSettled 0 (Inr (reply_body (JStr ''Rest well.''))),
       SelectLanguage ''hi-IN'', ChangeInput ''thank you'', AskAI,
       FetchSettled 0 (Inr (True, ''OK'')), AskAI, JsonSettled 0 (Inr (JObj []))]))
      = [User, Model, User, Model]
   \<and> isLoading (run undefined (init True) [ChangeInput ''hello'', AskAI, AskAI])
   \<and> role (last (chatHistory (run undefined (init True) [ChangeInput ''hello'', AskAI, AskAI])))
      = User"
proof -
  let ?js = "undefined :: jsval \<Rightarrow> string"
  let ?es = "[ChangeInput ''hello'', AskAI, AskAI, ChangeInput ''again'',
       FetchSettled 0 (Inr (True, ''OK'')), JsonSettled 0 (Inr (reply_body (JStr ''Rest well.''))),
       SelectLanguage ''hi-IN'', ChangeInput ''thank you'', AskAI,
       FetchSettled 0 (Inr (True, ''OK'')), AskAI, JsonSettled 0 (Inr (JObj []))]"
  let ?busy = "[ChangeInput ''hello'', AskAI, AskAI]"
  have f: "failures ?js (init True) ?es = 0"
    by (simp add: model_defs caught_def trim_hello trim_thanks trim_again Let_def reply_body_def)
  have n: "successes ?js (init True) ?es = 2"
    by (simp add: model_defs caught_def trim_hello trim_thanks trim_again Let_def reply_body_def)
  have i: "\<not> isLoading (run ?js (init True) ?es)"
    by (simp add: model_defs trim_hello trim_thanks trim_again Let_def reply_body_def)
  have b: "isLoading (run ?js (init True) ?busy)"
    by (simp add: model_defs trim_hello Let_def)
  note a = history_alternates [of ?js True ?es AskAI]
  note imp = a [THEN conjunct2, THEN conjunct2, THEN conjunct1]
  have "length (chatHistory (run ?js (init True) ?es)) = 2 * successes ?js (init True) ?es"
    by (rule mp [OF imp conjI [OF f i]])
  then have len: "length (chatHistory (run ?js (init True) ?es)) = 4" by (simp only: n)
  have "map role (chatHistory (run ?js (init True) ?es))
                 = alternating (length (chatHistory (run ?js (init True) ?es)))"
    by (rule a [THEN conjunct1])
  then have roles: "map role (chatHistory (run ?js (init True) ?es)) = [User, Model, User, Model]"
    by (simp only: len alternating_4)
  note c = history_alternates [of ?js True ?busy AskAI]
  note d = mp [OF c [THEN conjunct2, THEN conjunct2, THEN conjunct2, THEN conjunct1] b]
  from d obtain h u where "chatHistory (run ?js (init True) ?busy) = h @ [u]" "role u = User"
    by blast
  then have last: "role (last (chatHistory (run ?js (init True) ?busy))) = User" by simp
  from f i n len roles b last show ?thesis by (intro conjI)
qed




text \<open>
  When the response is not ok and its body parses, the error that \<open>handleAskAI\<close> throws
  (and its \<open>catch\<close> block logs) has the message \<open>API error: \<close>status text\<open> - \<close>
  \<open>JSON.stringify\<close> of the body.
\<close>

lemma api_error_for_parsed_body:
  fixes js supported es n1 n2 statusText errorData
  defines "s \<equiv> run js (init supported) es"
  defines "s' \<equiv> run js (init supported) (es @ exchange n1 n2 (NotOk statusText (Inr errorData)))"
  assumes "\<not> isLoading s" and "trim (userInput s) \<noteq> []"
    and "list_all quiet n1" and "list_all quiet n2"
  shows "exchange_log s' = exchange_log s
           @ (if startsWith (selectedLanguage s) ''en'' then []
              else [TranslateCall (JStr (userInput s)) ''en-US'' (selectedLanguage s)])
           @ [FetchCall (JStr (userInput s)),
              ConsoleError ''Gemini API call failed:''
                (Error (''API error: '' @ statusText @ '' - '' @ js errorData))]"
proof -
  note l = exchange_from_reachable [OF assms(3-6)[unfolded s_def],
             where out = "NotOk statusText (Inr errorData)", folded s_def s'_def]
  then show ?thesis by (simp add: landed_def api_error_def)
qed

text \<open>
  C7. The claim is that every response that is not ok makes \<open>handleAskAI\<close> throw an
  error whose message carries the status text and the error body. The code builds that
  message only after \<open>await response.json()\<close>: for a response that is not ok and whose
  body is not JSON (here a 502 with an HTML page), that \<open>await\<close> rejects first, and what
  is thrown and logged is the bare parse failure, without the status text.
\<close>

theorem unparsed_error_body_is_bare:
  "exchange_log (run undefined (init True)
      ([ChangeInput ''hello'']
       @ exchange [] [] (NotOk ''Bad Gateway''
                           (Inl (External ''Unexpected token < in JSON at position 0'')))))
     = [FetchCall (JStr ''hello''),
        ConsoleError ''Gemini API call failed:''
          (External ''Unexpected token < in JSON at position 0'')]"
  by (simp add: model_defs exchange_log_def trim_hello Let_def)

text \<open>
  When the response is ok and its body parses to a value other than \<open>null\<close>, but nothing
  truthy sits at \<open>candidates[0].content.parts[0].text\<close>, the reply is the fixed string
  \<open>Sorry, I couldn't process that.\<close>; in a session whose language does not start with
  \<open>en\<close> this string goes through \<open>translateText\<close> before it is appended as the assistant
  message.
\<close>

lemma placeholder_for_textless_body:
  fixes js supported es n1 n2 statusText result
  defines "s \<equiv> run js (init supported) es"
  defines "s' \<equiv> run js (init supported) (es @ exchange n1 n2 (Ok statusText (Inr result)))"
  assumes "\<not> isLoading s" and "trim (userInput s) \<noteq> []"
    and "list_all quiet n1" and "list_all quiet n2"
    and "\<not> nullish result" and "\<not> truthy (text_path result)"
  shows "chatHistory s' = chatHistory s
           @ [\<lparr>role = User, text = JStr (userInput s)\<rparr>,
              \<lparr>role = Model,
               text = JStr (if startsWith (selectedLanguage s) ''en'' then placeholder
                            else ''['' @ split_first (CHR ''-'') (selectedLanguage s) @ ''] ''
                                 @ placeholder)\<rparr>]
       \<and> calls s' = calls s
           @ (if startsWith (selectedLanguage s) ''en'' then [FetchCall (JStr (userInput s))]
              else [TranslateCall (JStr (userInput s)) ''en-US'' (selectedLanguage s),
                    FetchCall (JStr (userInput s)),
                    TranslateCall (JStr placeholder) (selectedLanguage s) ''en-US''])"
proof -
  note l = exchange_from_reachable [OF assms(3-6)[unfolded s_def],
             where out = "Ok statusText (Inr result)", folded s_def s'_def]
  have "chatHistory s' = chatHistory s
           @ [\<lparr>role = User, text = JStr (userInput s)\<rparr>,
              \<lparr>role = Model,
               text = JStr (if startsWith (selectedLanguage s) ''en'' then placeholder
                            else ''['' @ split_first (CHR ''-'') (selectedLanguage s) @ ''] ''
                                 @ placeholder)\<rparr>]"
    using l assms(7,8) by (simp add: landed_def english_reply_def translateText_string)
  moreover from landed_calls [OF l] assms(7,8)
  have "calls s' = calls s
           @ (if startsWith (selectedLanguage s) ''en'' then [FetchCall (JStr (userInput s))]
              else [TranslateCall (JStr (userInput s)) ''en-US'' (selectedLanguage s),
                    FetchCall (JStr (userInput s)),
                    TranslateCall (JStr placeholder) (selectedLanguage s) ''en-US''])"
    by (simp add: calls_log english_reply_def translateText_string)
  ultimately show ?thesis by blast
qed

text \<open>
  C10. The claim is that a response that parses but holds no usable text gets the
  placeholder, translated in a session that is not English. The code does so for every
  such body but one: the path to the text is read with \<open>?.\<close> at every link except the
  first, so for the body \<open>null\<close> the read of \<open>result.candidates\<close> throws, and the exchange
  ends in the \<open>catch\<close> block with the untranslated apology instead of the placeholder.
\<close>

theorem null_body_gets_apology:
  "chatHistory (run undefined (init True)
                  ([SelectLanguage ''hi-IN'', ChangeInput ''hello'']
                   @ exchange [] [] (Ok ''OK'' (Inr JNull))))
     = [\<lparr>role = User, text = JStr ''hello''\<rparr>,
        \<lparr>role = Model,
         text = JStr ''I'm having trouble connecting right now. Please try again.''\<rparr>]"
  by (simp add: model_defs trim_hello Let_def apology_def)

subsection \<open>Voice input\<close>

text \<open>
  C8, as the code has it. Pressing the microphone while \<open>isListening\<close> is true calls
  \<open>recognition.stop()\<close> and clears the flag; the call itself writes nothing to the input
  field or the history. The \<open>onresult\<close> handler stays installed, so when the stopped
  capture still returns a result for the audio it had received, the transcript is
  written to the input field.
\<close>

theorem toggle_stops_listening:
  fixes js s platform r transcript
  defines "s' \<equiv> step js s (ToggleListening platform)"
  assumes "recognition s = Some r" and "isListening s"
  shows "\<not> isListening s' \<and> userInput s' = userInput s \<and> chatHistory s' = chatHistory s
       \<and> effects s' = effects s @ [RecognitionStop]
       \<and> recognition s' = Some (r\<lparr>capture := stop (capture r)\<rparr>)
       \<and> (capture r = Capturing \<and> handlers r \<noteq> None \<longrightarrow>
            userInput (step js s' (RecResult transcript)) = transcript)"
  using assms(2,3) unfolding s'_def
  by (auto simp: handleToggleListening_def emit_def deliver_def onresult_def)

theorem toggle_stops_listening_witness:
  "recognition (run undefined (init True) [ToggleListening None])
     = Some \<lparr>lang = ''en-US'', capture = Capturing, handlers = Some ''en-US''\<rparr>
   \<and> isListening (run undefined (init True) [ToggleListening None])
   \<and> \<not> isListening (step undefined (run undefined (init True) [ToggleListening None])
                        (ToggleListening None))
   \<and> userInput (step undefined (step undefined (run undefined (init True) [ToggleListening None])
                        (ToggleListening None)) (RecResult ''I feel stressed''))
     = ''I feel stressed''"
proof -
  let ?js = "undefined :: jsval \<Rightarrow> string"
  let ?on = "run ?js (init True) [ToggleListening None]"
  let ?r = "\<lparr>lang = ''en-US'', capture = Capturing, handlers = Some ''en-US''\<rparr>"
  have h1: "recognition ?on = Some ?r"
    by (simp add: run_def init_def handleToggleListening_def start_def emit_def)
  have h2: "isListening ?on"
    by (simp add: run_def init_def handleToggleListening_def start_def emit_def)
  have h3: "capture ?r = Capturing \<and> handlers ?r \<noteq> None" by simp
  from toggle_stops_listening [OF h1 h2, of ?js None "''I feel stressed''"] h3
  have "\<not> isListening (step ?js ?on (ToggleListening None))"
    and "userInput (step ?js (step ?js ?on (ToggleListening None))
           (RecResult ''I feel stressed'')) = ''I feel stressed''"
    by blast+
  with h1 h2 show ?thesis by blast
qed

text \<open>
  C8 as stated fails: the capture is started, the microphone is pressed again, and the
  result that the stopped capture returns lands in the input field.
\<close>

theorem late_transcript_delivered:
  "isListening (run undefined (init True) [ToggleListening None])
   \<and> \<not> isListening (run undefined (init True) [ToggleListening None, ToggleListening None])
   \<and> userInput (run undefined (init True) [ToggleListening None, ToggleListening None]) = []
   \<and> userInput (run undefined (init True)
        [ToggleListening None, ToggleListening None, RecResult ''I feel stressed''])
      = ''I feel stressed''"
  by (simp add: model_defs)


end
